theory Spec2Isabelle
  imports Main "HOL-Library.Word"
begin

section \<open>Strings of the client\<close>

text \<open>
  A JavaScript string is a sequence of UTF-16 code units. The bullet character of the
  list-marker patterns is the code unit 0x2022, which no 8-bit character holds, so a
  string is a list of 16-bit words. \<open>js\<close> writes an ASCII literal as such a list.
\<close>

type_synonym jschar = "16 word"
type_synonym jsstring = "jschar list"

definition js :: "string \<Rightarrow> jsstring" where
  "js s = map (\<lambda>c. of_nat (of_char c)) s"

text \<open>
  The class \<^verbatim>\<open>\s\<close> of a regular expression and the characters removed by
  \<^verbatim>\<open>String.prototype.trim\<close> are the same set: ECMAScript's WhiteSpace and
  LineTerminator code points.
\<close>

definition isWhiteSpace :: "jschar \<Rightarrow> bool" where
  "isWhiteSpace c =
     (c = 0x09 \<or> c = 0x0A \<or> c = 0x0B \<or> c = 0x0C \<or> c = 0x0D \<or> c = 0x20 \<or> c = 0xA0
      \<or> c = 0x1680 \<or> (0x2000 \<le> c \<and> c \<le> 0x200A) \<or> c = 0x2028 \<or> c = 0x2029
      \<or> c = 0x202F \<or> c = 0x205F \<or> c = 0x3000 \<or> c = 0xFEFF)"

definition isLineTerminator :: "jschar \<Rightarrow> bool" where
  "isLineTerminator c = (c = 0x0A \<or> c = 0x0D \<or> c = 0x2028 \<or> c = 0x2029)"

definition isDigit :: "jschar \<Rightarrow> bool" where
  "isDigit c = (0x30 \<le> c \<and> c \<le> 0x39)"

definition isAsciiLetter :: "jschar \<Rightarrow> bool" where
  "isAsciiLetter c = ((0x61 \<le> c \<and> c \<le> 0x7A) \<or> (0x41 \<le> c \<and> c \<le> 0x5A))"

definition isBullet :: "jschar \<Rightarrow> bool" where
  "isBullet c = (c = 0x2D \<or> c = 0x2A \<or> c = 0x2022)"

definition isBlank :: "jschar \<Rightarrow> bool" where
  "isBlank c = (c = 0x20 \<or> c = 0x09)"

definition trim :: "jsstring \<Rightarrow> jsstring" where
  "trim s = rev (dropWhile isWhiteSpace (rev (dropWhile isWhiteSpace s)))"

text \<open>
  \<^verbatim>\<open>(text || '')\<close>: the empty string is the only falsy string, and it is replaced
  by the empty string.
\<close>

definition orEmpty :: "jsstring \<Rightarrow> jsstring" where
  "orEmpty s = (if s = [] then [] else s)"

text \<open>\<^verbatim>\<open>s.split(sep)\<close> for a one-character separator: never an empty array.\<close>

fun split :: "jschar \<Rightarrow> jsstring \<Rightarrow> jsstring list" where
  "split sep [] = [[]]"
| "split sep (c # cs) =
     (if c = sep then [] # split sep cs
      else (case split sep cs of
              [] \<Rightarrow> [[c]]
            | x # xs \<Rightarrow> (c # x) # xs))"

text \<open>\<^verbatim>\<open>lines.join('\n')\<close>.\<close>

fun joinNl :: "jsstring list \<Rightarrow> jsstring" where
  "joinNl [] = []"
| "joinNl [x] = x"
| "joinNl (x # y # ys) = x @ 0x0A # joinNl (y # ys)"

section \<open>Regular-expression replacement\<close>

text \<open>
  A pattern is modelled by a matcher: given the code unit before the current position
  (none at the start of the string) and the text from the current position on, it
  returns the replacement text and the text after the match, or nothing when the
  pattern does not match at this position. \<open>greplace\<close> is
  \<^verbatim>\<open>String.prototype.replace\<close> with a global pattern: positions are tried from
  left to right, a match is replaced and the search resumes after it, an unmatched
  code unit is copied. An empty match is replaced and the search advances by one code
  unit.
\<close>

type_synonym matcher = "jschar option \<Rightarrow> jsstring \<Rightarrow> (jsstring \<times> jsstring) option"

function greplace :: "matcher \<Rightarrow> jschar option \<Rightarrow> jsstring \<Rightarrow> jsstring" where
  "greplace m prev [] = (case m prev [] of None \<Rightarrow> [] | Some (rep, rest) \<Rightarrow> rep)"
| "greplace m prev (c # cs) =
     (case m prev (c # cs) of
        None \<Rightarrow> c # greplace m (Some c) cs
      | Some (rep, rest) \<Rightarrow>
          if length rest \<le> length cs
          then rep @ greplace m (Some ((c # cs) ! (length cs - length rest))) rest
          else rep @ c # greplace m (Some c) cs)"
  by pat_completeness auto
termination
  by (relation "measure (\<lambda>(m, prev, s). length s)") auto

text \<open>\<^verbatim>\<open>^\<close> and \<^verbatim>\<open>$\<close> under the \<^verbatim>\<open>m\<close> flag.\<close>

definition atLineStart :: "jschar option \<Rightarrow> bool" where
  "atLineStart prev = (case prev of None \<Rightarrow> True | Some p \<Rightarrow> isLineTerminator p)"

definition atLineEnd :: "jsstring \<Rightarrow> bool" where
  "atLineEnd rest = (case rest of [] \<Rightarrow> True | c # _ \<Rightarrow> isLineTerminator c)"

text \<open>
  \<^verbatim>\<open>([^c]+)c\<close>: the greedy run stops at the first \<open>c\<close>, and no shorter run is
  followed by \<open>c\<close>. The result is the group and the text after the closing \<open>c\<close>.
\<close>

definition untilChar :: "jschar \<Rightarrow> jsstring \<Rightarrow> (jsstring \<times> jsstring) option" where
  "untilChar c s =
     (let g = takeWhile (\<lambda>x. x \<noteq> c) s; r = dropWhile (\<lambda>x. x \<noteq> c) s
      in if g = [] then None
         else (case r of [] \<Rightarrow> None | _ # r' \<Rightarrow> Some (g, r')))"

text \<open>\<^verbatim>\<open>\s+\<close> at the end of a pattern: the text after the whole run.\<close>

definition wsPlus :: "jsstring \<Rightarrow> jsstring option" where
  "wsPlus s =
     (case s of
        [] \<Rightarrow> None
      | c # _ \<Rightarrow> if isWhiteSpace c then Some (dropWhile isWhiteSpace s) else None)"

text \<open>
  \<^verbatim>\<open>\s*(?:[-*U+2022]|\d+\.)\s+\<close> anchored at the start of its argument: the text
  after the match. The marker starts with a code unit that is no white space, so the
  leading run is the whole white space; the digits are followed by a dot only after
  the whole run of digits.
\<close>

definition listMarker :: "jsstring \<Rightarrow> jsstring option" where
  "listMarker s =
     (case dropWhile isWhiteSpace s of
        [] \<Rightarrow> None
      | c # r \<Rightarrow>
          if isBullet c then wsPlus r
          else if isDigit c then
            (case dropWhile isDigit r of
               [] \<Rightarrow> None
             | d # r1 \<Rightarrow> if d = 0x2E then wsPlus r1 else None)
          else None)"

subsection \<open>The patterns of stripMarkdown\<close>

definition fence :: jsstring where
  "fence = [0x60, 0x60, 0x60]"

text \<open>The lazy \<^verbatim>\<open>[\s\S]*?\<close> up to the nearest closing fence: the text between, and the text after the fence.\<close>

fun findFence :: "jsstring \<Rightarrow> (jsstring \<times> jsstring) option" where
  "findFence [] = None"
| "findFence (c # cs) =
     (if take 3 (c # cs) = fence then Some ([], drop 3 (c # cs))
      else (case findFence cs of
              None \<Rightarrow> None
            | Some (inner, rest) \<Rightarrow> Some (c # inner, rest)))"

text \<open>Inside a fenced block: the opening fence with its language tag and newline, then any fence left.\<close>

definition mFenceOpen :: matcher where
  "mFenceOpen prev s =
     (if take 3 s = fence then
        (let r = dropWhile isAsciiLetter (drop 3 s)
         in Some ([], case r of [] \<Rightarrow> r | c # r' \<Rightarrow> if c = 0x0A then r' else r))
      else None)"

definition mFence :: matcher where
  "mFence prev s = (if take 3 s = fence then Some ([], drop 3 s) else None)"

definition unfence :: "jsstring \<Rightarrow> jsstring" where
  "unfence block = greplace mFence None (greplace mFenceOpen None block)"

definition mCodeBlock :: matcher where
  "mCodeBlock prev s =
     (if take 3 s = fence then
        (case findFence (drop 3 s) of
           None \<Rightarrow> None
         | Some (inner, rest) \<Rightarrow> Some (unfence (fence @ inner @ fence), rest))
      else None)"

text \<open>\<^verbatim>\<open>\[([^\]]+)\]\(([^)]+)\)\<close>, replaced by the first group.\<close>

definition mLink :: matcher where
  "mLink prev s =
     (case s of
        [] \<Rightarrow> None
      | c # r \<Rightarrow>
          if c = 0x5B then
            (case untilChar 0x5D r of
               None \<Rightarrow> None
             | Some (label, r1) \<Rightarrow>
                 (case r1 of
                    [] \<Rightarrow> None
                  | p # r2 \<Rightarrow>
                      if p = 0x28 then
                        (case untilChar 0x29 r2 of
                           None \<Rightarrow> None
                         | Some (url, r3) \<Rightarrow> Some (label, r3))
                      else None))
          else None)"

text \<open>
  One delimiter character around a group without it: inline code and the single
  emphasis markers.
\<close>

definition mWrap1 :: "jschar \<Rightarrow> matcher" where
  "mWrap1 d prev s =
     (case s of
        [] \<Rightarrow> None
      | c # r \<Rightarrow> if c = d then untilChar d r else None)"

text \<open>Two delimiter characters on each side: the double emphasis markers.\<close>

definition mWrap2 :: "jschar \<Rightarrow> matcher" where
  "mWrap2 d prev s =
     (case s of
        a # b # r \<Rightarrow>
          if a = d \<and> b = d then
            (case untilChar d r of
               None \<Rightarrow> None
             | Some (g, r1) \<Rightarrow>
                 (case r1 of
                    [] \<Rightarrow> None
                  | e # r2 \<Rightarrow> if e = d then Some (g, r2) else None))
          else None
      | _ \<Rightarrow> None)"

text \<open>
  \<^verbatim>\<open>^\s{0,3}#{1,6}\s+\<close> with flags \<^verbatim>\<open>gm\<close>. The white space before the first
  hash is matched whole or not at all, and so is the run of hashes before the white
  space that follows it.
\<close>

definition mHeading :: matcher where
  "mHeading prev s =
     (if atLineStart prev then
        (let ws = takeWhile isWhiteSpace s; r = dropWhile isWhiteSpace s
         in if 3 < length ws then None
            else (let hs = takeWhile (\<lambda>c. c = 0x23) r; r1 = dropWhile (\<lambda>c. c = 0x23) r
                  in if hs = [] \<or> 6 < length hs then None
                     else (case wsPlus r1 of
                             None \<Rightarrow> None
                           | Some r2 \<Rightarrow> Some ([], r2))))
      else None)"

text \<open>\<^verbatim>\<open>^\s{0,3}>\s?\<close> with flags \<^verbatim>\<open>gm\<close>.\<close>

definition mBlockquote :: matcher where
  "mBlockquote prev s =
     (if atLineStart prev then
        (let ws = takeWhile isWhiteSpace s; r = dropWhile isWhiteSpace s
         in if 3 < length ws then None
            else (case r of
                    [] \<Rightarrow> None
                  | c # r1 \<Rightarrow>
                      if c = 0x3E then
                        Some ([], case r1 of
                                    [] \<Rightarrow> r1
                                  | d # r2 \<Rightarrow> if isWhiteSpace d then r2 else r1)
                      else None))
      else None)"

text \<open>The list-marker pattern with flags \<^verbatim>\<open>gm\<close>.\<close>

definition mListMarker :: matcher where
  "mListMarker prev s =
     (if atLineStart prev then
        (case listMarker s of None \<Rightarrow> None | Some r \<Rightarrow> Some ([], r))
      else None)"

text \<open>\<^verbatim>\<open>[ \t]+$\<close> with flags \<^verbatim>\<open>gm\<close>.\<close>

definition mTrailing :: matcher where
  "mTrailing prev s =
     (case s of
        [] \<Rightarrow> None
      | c # _ \<Rightarrow>
          if isBlank c then
            (let r = dropWhile isBlank s in if atLineEnd r then Some ([], r) else None)
          else None)"

text \<open>\<^verbatim>\<open>stripMarkdown\<close> of utils/text.ts: the replacements in the order of the source, then trim.\<close>

definition stripMarkdown :: "jsstring \<Rightarrow> jsstring" where
  "stripMarkdown text =
     trim
      (greplace mTrailing None
        (greplace (mWrap1 0x5F) None
          (greplace (mWrap1 0x2A) None
            (greplace (mWrap2 0x5F) None
              (greplace (mWrap2 0x2A) None
                (greplace mListMarker None
                  (greplace mBlockquote None
                    (greplace mHeading None
                      (greplace (mWrap1 0x60) None
                        (greplace mLink None
                          (greplace mCodeBlock None (orEmpty text))))))))))))"

section \<open>The objectives list of the course-context form\<close>

text \<open>
  \<^verbatim>\<open>normalizeObjectiveLine\<close>: the pattern has no flag, so it is tried at the start
  of the line only, and one match is replaced.
\<close>

definition normalizeObjectiveLine :: "jsstring \<Rightarrow> jsstring" where
  "normalizeObjectiveLine line =
     trim (case listMarker (orEmpty line) of
             None \<Rightarrow> orEmpty line
           | Some rest \<Rightarrow> rest)"

text \<open>\<^verbatim>\<open>/\r\n/g\<close>, replaced by a newline.\<close>

definition mCrLf :: matcher where
  "mCrLf prev s =
     (case s of
        a # b # r \<Rightarrow> if a = 0x0D \<and> b = 0x0A then Some ([0x0A], r) else None
      | _ \<Rightarrow> None)"

definition parseObjectivesText :: "jsstring \<Rightarrow> jsstring list" where
  "parseObjectivesText text =
     (let raw = trim (greplace mCrLf None (orEmpty text))
      in if raw = [] then []
         else filter (\<lambda>l. l \<noteq> []) (map normalizeObjectiveLine (split 0x0A raw)))"

definition joinObjectives :: "jsstring list \<Rightarrow> jsstring" where
  "joinObjectives lines = joinNl (filter (\<lambda>l. l \<noteq> []) (map normalizeObjectiveLine lines))"

section \<open>Entities (types/index.ts)\<close>

text \<open>
  A \<^verbatim>\<open>number\<close> holding an identifier is an integer; \<^verbatim>\<open>T | null\<close> is an option.
  Field names carry a prefix where two interfaces share a name.
\<close>

record Session =
  ses_id :: int
  ses_course_title :: jsstring
  ses_level :: jsstring
  ses_modality :: jsstring
  ses_constraints :: "jsstring option"
  ses_learning_objectives :: "jsstring option"
  ses_created_at :: jsstring

record DesignStep =
  ds_id :: int
  ds_session_id :: int
  ds_phase :: jsstring
  ds_user_input :: "jsstring option"
  ds_created_at :: jsstring

record AIRecommendation =
  rec_id :: int
  rec_step_id :: int
  rec_phase :: jsstring
  rec_raw_response :: jsstring
  rec_created_at :: jsstring

datatype ActionType = Accept | Reject | Edit | Comment | Regenerate

record UserAction =
  ua_id :: int
  ua_step_id :: int
  ua_recommendation_id :: "int option"
  ua_action_type :: ActionType
  ua_edited_content :: "jsstring option"
  ua_comment :: "jsstring option"
  ua_created_at :: jsstring

record CourseContextForm =
  course_title :: jsstring
  level :: jsstring
  modality :: jsstring
  constraints :: jsstring
  learning_objectives :: jsstring

record BloomAnalysisItem =
  objective :: jsstring
  current_level :: jsstring
  domain :: jsstring
  is_measurable :: bool
  suggestion :: jsstring

record ObjectiveAnalysisResponse =
  overall_assessment :: jsstring
  bloom_analysis :: "BloomAnalysisItem list"
  alignment_notes :: jsstring
  missing_coverage :: "jsstring list"
  improved_objectives :: "jsstring list"

record ActivityItem =
  act_title :: jsstring
  act_type :: jsstring
  act_description :: jsstring
  act_objective_alignment :: "jsstring list"
  act_duration :: jsstring
  act_materials_needed :: "jsstring list"
  act_instructions :: "jsstring list"
  act_assessment_criteria :: jsstring
  act_adaptations_online :: jsstring
  act_adaptations_accessibility :: jsstring

datatype DesignPhase = PhaseContext | PhaseObjectiveAnalysis | PhaseActivitySuggestion | PhaseSummary

section \<open>The session store (stores/session.ts)\<close>

record session_store =
  currentSession :: "Session option"
  sessionId :: "int option"
  courseContext :: CourseContextForm
  designSteps :: "DesignStep list"
  recommendations :: "AIRecommendation list"
  userActions :: "UserAction list"
  objectiveAnalysis :: "ObjectiveAnalysisResponse option"
  activitySuggestions :: "ActivityItem list"
  isLoading :: bool
  isGenerating :: bool
  currentPhase :: DesignPhase

text \<open>The state a fresh store is created with (the \<^verbatim>\<open>ref(...)\<close> declarations).\<close>

definition emptyForm :: CourseContextForm where
  "emptyForm = \<lparr>course_title = [], level = [], modality = [], constraints = [],
                 learning_objectives = []\<rparr>"

definition initialStore :: session_store where
  "initialStore =
     \<lparr>currentSession = None, sessionId = None, courseContext = emptyForm,
      designSteps = [], recommendations = [], userActions = [],
      objectiveAnalysis = None, activitySuggestions = [],
      isLoading = False, isGenerating = False, currentPhase = PhaseContext\<rparr>"

subsection \<open>Getters\<close>

definition hasActiveSession :: "session_store \<Rightarrow> bool" where
  "hasActiveSession st = (sessionId st \<noteq> None)"

text \<open>\<^verbatim>\<open>Array.prototype.find\<close>: the first element that satisfies the test, or undefined.\<close>

definition currentStepForPhase :: "session_store \<Rightarrow> jsstring \<Rightarrow> DesignStep option" where
  "currentStepForPhase st phase = find (\<lambda>step. ds_phase step = phase) (designSteps st)"

definition recommendationsForStep :: "session_store \<Rightarrow> int \<Rightarrow> AIRecommendation list" where
  "recommendationsForStep st stepId = filter (\<lambda>r. rec_step_id r = stepId) (recommendations st)"

subsection \<open>Actions\<close>

definition setSession :: "Session \<Rightarrow> session_store \<Rightarrow> session_store" where
  "setSession session st = st\<lparr>currentSession := Some session, sessionId := Some (ses_id session)\<rparr>"

text \<open>The spread \<^verbatim>\<open>{ ...context }\<close> copies the five fields into a fresh object.\<close>

definition setCourseContext :: "CourseContextForm \<Rightarrow> session_store \<Rightarrow> session_store" where
  "setCourseContext context st =
     st\<lparr>courseContext :=
          \<lparr>course_title = course_title context, level = level context,
           modality = modality context, constraints = constraints context,
           learning_objectives = learning_objectives context\<rparr>\<rparr>"

definition updateLearningObjectives :: "jsstring \<Rightarrow> session_store \<Rightarrow> session_store" where
  "updateLearningObjectives objectives st =
     st\<lparr>courseContext := (courseContext st)\<lparr>learning_objectives := objectives\<rparr>\<rparr>"

definition setCurrentPhase :: "DesignPhase \<Rightarrow> session_store \<Rightarrow> session_store" where
  "setCurrentPhase phase st = st\<lparr>currentPhase := phase\<rparr>"

definition addDesignStep :: "DesignStep \<Rightarrow> session_store \<Rightarrow> session_store" where
  "addDesignStep step st = st\<lparr>designSteps := designSteps st @ [step]\<rparr>"

definition addRecommendation :: "AIRecommendation \<Rightarrow> session_store \<Rightarrow> session_store" where
  "addRecommendation recommendation st =
     st\<lparr>recommendations := recommendations st @ [recommendation]\<rparr>"

definition setObjectiveAnalysis :: "ObjectiveAnalysisResponse \<Rightarrow> session_store \<Rightarrow> session_store" where
  "setObjectiveAnalysis analysis st = st\<lparr>objectiveAnalysis := Some analysis\<rparr>"

definition setActivitySuggestions :: "ActivityItem list \<Rightarrow> session_store \<Rightarrow> session_store" where
  "setActivitySuggestions suggestions st = st\<lparr>activitySuggestions := suggestions\<rparr>"

definition addUserAction :: "UserAction \<Rightarrow> session_store \<Rightarrow> session_store" where
  "addUserAction action st = st\<lparr>userActions := userActions st @ [action]\<rparr>"

definition setLoading :: "bool \<Rightarrow> session_store \<Rightarrow> session_store" where
  "setLoading loading st = st\<lparr>isLoading := loading\<rparr>"

definition setGenerating :: "bool \<Rightarrow> session_store \<Rightarrow> session_store" where
  "setGenerating generating st = st\<lparr>isGenerating := generating\<rparr>"

definition resetSession :: "session_store \<Rightarrow> session_store" where
  "resetSession st =
     st\<lparr>currentSession := None,
        sessionId := None,
        courseContext :=
          \<lparr>course_title = [], level = [], modality = [], constraints = [],
           learning_objectives = []\<rparr>,
        designSteps := [],
        recommendations := [],
        userActions := [],
        objectiveAnalysis := None,
        activitySuggestions := [],
        currentPhase := PhaseContext,
        isLoading := False,
        isGenerating := False\<rparr>"

text \<open>Any sequence of store operations, for statements about every state the store can reach.\<close>

datatype store_op =
    SetSession Session
  | SetCourseContext CourseContextForm
  | UpdateLearningObjectives jsstring
  | SetCurrentPhase DesignPhase
  | AddDesignStep DesignStep
  | AddRecommendation AIRecommendation
  | SetObjectiveAnalysis ObjectiveAnalysisResponse
  | SetActivitySuggestions "ActivityItem list"
  | AddUserAction UserAction
  | SetLoading bool
  | SetGenerating bool
  | ResetSession

fun applyOp :: "session_store \<Rightarrow> store_op \<Rightarrow> session_store" where
  "applyOp st (SetSession s) = setSession s st"
| "applyOp st (SetCourseContext f) = setCourseContext f st"
| "applyOp st (UpdateLearningObjectives x) = updateLearningObjectives x st"
| "applyOp st (SetCurrentPhase p) = setCurrentPhase p st"
| "applyOp st (AddDesignStep d) = addDesignStep d st"
| "applyOp st (AddRecommendation r) = addRecommendation r st"
| "applyOp st (SetObjectiveAnalysis a) = setObjectiveAnalysis a st"
| "applyOp st (SetActivitySuggestions l) = setActivitySuggestions l st"
| "applyOp st (AddUserAction a) = addUserAction a st"
| "applyOp st (SetLoading b) = setLoading b st"
| "applyOp st (SetGenerating b) = setGenerating b st"
| "applyOp st ResetSession = resetSession st"

definition runOps :: "store_op list \<Rightarrow> session_store" where
  "runOps ops = foldl applyOp initialStore ops"

section \<open>The objective-analysis view\<close>

text \<open>
  The view keeps a draft of the learning objectives and the text last persisted to
  the backend (the baseline). A remote call is modelled by its outcome, an argument of
  the operation: an error when the promise rejects, the response otherwise.
\<close>

datatype api_error = NetworkError | HttpError "jsstring option"

record LLMResponse =
  llm_success :: bool
  llm_step_id :: int
  llm_recommendation_id :: int
  llm_data :: ObjectiveAnalysisResponse

record objective_view =
  isAnalyzing :: bool
  analysisResult :: "ObjectiveAnalysisResponse option"
  stepId :: "int option"
  recommendationId :: "int option"
  errorMessage :: jsstring
  objectivesDraft :: jsstring
  lastSavedObjectives :: jsstring
  hasSavedBaseline :: bool
  successMessage :: jsstring
  isSaving :: bool

definition initialView :: objective_view where
  "initialView =
     \<lparr>isAnalyzing = False, analysisResult = None, stepId = None, recommendationId = None,
      errorMessage = [], objectivesDraft = [], lastSavedObjectives = [],
      hasSavedBaseline = False, successMessage = [], isSaving = False\<rparr>"

definition isDirty :: "objective_view \<Rightarrow> bool" where
  "isDirty v = (orEmpty (objectivesDraft v) \<noteq> orEmpty (lastSavedObjectives v))"

text \<open>The callback of the watcher on \<^verbatim>\<open>sessionStore.courseContext.learning_objectives\<close>.\<close>

definition watchObjectives :: "jsstring \<Rightarrow> objective_view \<Rightarrow> objective_view" where
  "watchObjectives val v =
     (let next = orEmpty val
      in if \<not> hasSavedBaseline v then
           v\<lparr>objectivesDraft := next, lastSavedObjectives := next, hasSavedBaseline := True\<rparr>
         else if \<not> isDirty v then v\<lparr>objectivesDraft := next\<rparr>
         else v)"

text \<open>
  The watcher is registered with \<^verbatim>\<open>immediate: true\<close>: the callback runs once when
  the view is set up, and afterwards each time the watched value of the store changes.
\<close>

definition mountView :: "session_store \<Rightarrow> objective_view" where
  "mountView st = watchObjectives (learning_objectives (courseContext st)) initialView"

definition storeChanged :: "session_store \<Rightarrow> session_store \<Rightarrow> objective_view \<Rightarrow> objective_view" where
  "storeChanged old new v =
     (if learning_objectives (courseContext new) \<noteq> learning_objectives (courseContext old)
      then watchObjectives (learning_objectives (courseContext new)) v
      else v)"

text \<open>\<^verbatim>\<open>if (sessionStore.sessionId)\<close>: null and 0 are falsy.\<close>

definition truthyId :: "int option \<Rightarrow> bool" where
  "truthyId i = (case i of None \<Rightarrow> False | Some n \<Rightarrow> n \<noteq> 0)"

definition analysisErrorMessage :: "api_error \<Rightarrow> jsstring" where
  "analysisErrorMessage e =
     (case e of
        HttpError (Some detail) \<Rightarrow>
          if detail = [] then js ''Analysis failed. Please try again.'' else detail
      | _ \<Rightarrow> js ''Analysis failed. Please try again.'')"

text \<open>
  \<^verbatim>\<open>runAnalysis\<close> returns at once when the session id is null or 0. \<open>upd\<close> is the outcome of \<^verbatim>\<open>updateSession\<close>, \<open>ana\<close> the outcome of
  \<^verbatim>\<open>analyzeObjectives\<close>, \<open>now\<close> the time stamp of the new design step.
\<close>

definition runAnalysis ::
  "(api_error + Session) \<Rightarrow> (api_error + LLMResponse) \<Rightarrow> jsstring \<Rightarrow>
   session_store \<times> objective_view \<Rightarrow> session_store \<times> objective_view" where
  "runAnalysis upd ana now sv =
     (case sv of (st, v) \<Rightarrow>
        (case sessionId st of
           None \<Rightarrow> (st, v)
         | Some sid \<Rightarrow>
             if sid = 0 then (st, v)
             else
               (let v1 = v\<lparr>isAnalyzing := True, errorMessage := [], successMessage := []\<rparr>;
                    st1 = updateLearningObjectives (objectivesDraft v1) st;
                    v2 = storeChanged st st1 v1;
                    v3 = (case upd of
                            Inl e \<Rightarrow> v2
                          | Inr session \<Rightarrow> v2\<lparr>lastSavedObjectives := objectivesDraft v2\<rparr>)
                in case ana of
                     Inl e \<Rightarrow>
                       (st1, v3\<lparr>errorMessage := analysisErrorMessage e, isAnalyzing := False\<rparr>)
                   | Inr result \<Rightarrow>
                       (addDesignStep
                          \<lparr>ds_id = llm_step_id result,
                           ds_session_id = sid,
                           ds_phase = js ''objective-analysis'',
                           ds_user_input = Some (objectivesDraft v3),
                           ds_created_at = now\<rparr> st1,
                        v3\<lparr>stepId := Some (llm_step_id result),
                           recommendationId := Some (llm_recommendation_id result),
                           analysisResult := Some (llm_data result),
                           isAnalyzing := False\<rparr>))))"

text \<open>
  \<^verbatim>\<open>persistObjectives\<close>: the first component of the result is the error the call
  throws, if any. The user action recorded afterwards (\<^verbatim>\<open>createAction\<close>) is sent to
  the backend only; its failure is caught and nothing local depends on it.
\<close>

definition persistObjectives ::
  "jsstring \<Rightarrow> (api_error + Session) \<Rightarrow>
   session_store \<times> objective_view \<Rightarrow> api_error option \<times> session_store \<times> objective_view" where
  "persistObjectives updated upd sv =
     (case sv of (st, v) \<Rightarrow>
        (let st1 = updateLearningObjectives updated st;
             v1 = storeChanged st st1 v
         in if truthyId (sessionId st1) then
              (case upd of
                 Inl e \<Rightarrow> (Some e, st1, v1)
               | Inr session \<Rightarrow>
                   (None, st1,
                    v1\<lparr>lastSavedObjectives :=
                         (case ses_learning_objectives session of
                            None \<Rightarrow> updated
                          | Some saved \<Rightarrow> saved)\<rparr>))
            else (None, st1, v1)))"

definition saveObjectives ::
  "(api_error + Session) \<Rightarrow> session_store \<times> objective_view \<Rightarrow> session_store \<times> objective_view" where
  "saveObjectives upd sv =
     (case sv of (st, v) \<Rightarrow>
        if \<not> truthyId (sessionId st) then (st, v)
        else
          (let v1 = v\<lparr>isSaving := True, errorMessage := [], successMessage := []\<rparr>;
               updated = objectivesDraft v1
           in case persistObjectives updated upd (st, v1) of
                (None, st2, v2) \<Rightarrow> (st2, v2\<lparr>successMessage := js ''Saved.'', isSaving := False\<rparr>)
              | (Some e, st2, v2) \<Rightarrow>
                  (st2, v2\<lparr>errorMessage := js ''Save failed. Please try again.'',
                           isSaving := False\<rparr>)))"

section \<open>Export downloads (services/api.ts)\<close>

text \<open>
  The current time enters as the UTC calendar fields of \<^verbatim>\<open>new Date()\<close>.
  \<^verbatim>\<open>Date.prototype.toISOString\<close> and the conversion of a number in a template
  literal are ECMAScript built-ins; they are written out here as the language defines
  them.
\<close>

record js_date =
  utc_year :: int
  utc_month :: nat
  utc_day :: nat
  utc_hours :: nat
  utc_minutes :: nat
  utc_seconds :: nat
  utc_milliseconds :: nat

definition digitChar :: "nat \<Rightarrow> jschar" where
  "digitChar d = of_nat (48 + d)"

fun digitsOf :: "nat \<Rightarrow> jsstring" where
  "digitsOf n = (if n < 10 then [digitChar n] else digitsOf (n div 10) @ [digitChar (n mod 10)])"

declare digitsOf.simps [simp del]

definition padStart0 :: "nat \<Rightarrow> jsstring \<Rightarrow> jsstring" where
  "padStart0 w s = replicate (w - length s) 0x30 @ s"

text \<open>
  The session id is a JavaScript number. Every integer of magnitude at most
  \<open>2\<^sup>5\<^sup>3 - 1\<close> is such a number and prints as its decimal digits. A number beyond
  that range prints the shortest digits that identify it, filled with zeros, and in
  exponent notation from \<open>10\<^sup>2\<^sup>1\<close> on; that rendering is left to the engine and
  enters as the argument \<open>beyond\<close>.
\<close>

definition safeInteger :: "int \<Rightarrow> bool" where
  "safeInteger n = (- 9007199254740991 \<le> n \<and> n \<le> 9007199254740991)"

definition numberToString :: "(int \<Rightarrow> jsstring) \<Rightarrow> int \<Rightarrow> jsstring" where
  "numberToString beyond n =
     (if safeInteger n then
        (if n < 0 then 0x2D # digitsOf (nat (- n)) else digitsOf (nat n))
      else beyond n)"

definition toISOString :: "js_date \<Rightarrow> jsstring" where
  "toISOString d =
     (if 0 \<le> utc_year d \<and> utc_year d \<le> 9999 then padStart0 4 (digitsOf (nat (utc_year d)))
      else (if utc_year d < 0 then [0x2D] else [0x2B])
           @ padStart0 6 (digitsOf (nat \<bar>utc_year d\<bar>)))
     @ [0x2D] @ padStart0 2 (digitsOf (utc_month d))
     @ [0x2D] @ padStart0 2 (digitsOf (utc_day d))
     @ [0x54] @ padStart0 2 (digitsOf (utc_hours d))
     @ [0x3A] @ padStart0 2 (digitsOf (utc_minutes d))
     @ [0x3A] @ padStart0 2 (digitsOf (utc_seconds d))
     @ [0x2E] @ padStart0 3 (digitsOf (utc_milliseconds d))
     @ [0x5A]"

text \<open>\<^verbatim>\<open>parts[0]\<close> in a template literal: an empty array would print \<^verbatim>\<open>undefined\<close>.\<close>

definition firstPart :: "jsstring list \<Rightarrow> jsstring" where
  "firstPart parts = (case parts of [] \<Rightarrow> js ''undefined'' | x # _ \<Rightarrow> x)"

text \<open>The anchor element the download is triggered with: the type of its blob and its file name.\<close>

record download_link =
  blob_type :: jsstring
  download :: jsstring

definition downloadSessionExportDocx ::
  "(int \<Rightarrow> jsstring) \<Rightarrow> int \<Rightarrow> js_date \<Rightarrow> (api_error + 'blob) \<Rightarrow> api_error + download_link" where
  "downloadSessionExportDocx beyond sid now response =
     (case response of
        Inl e \<Rightarrow> Inl e
      | Inr body \<Rightarrow>
          Inr \<lparr>blob_type =
                 js ''application/vnd.openxmlformats-officedocument.wordprocessingml.document'',
               download =
                 js ''id-dss-session-'' @ numberToString beyond sid @ js ''-''
                 @ firstPart (split 0x54 (toISOString now)) @ js ''.docx''\<rparr>)"

definition downloadSessionExportPdf ::
  "(int \<Rightarrow> jsstring) \<Rightarrow> int \<Rightarrow> js_date \<Rightarrow> (api_error + 'blob) \<Rightarrow> api_error + download_link" where
  "downloadSessionExportPdf beyond sid now response =
     (case response of
        Inl e \<Rightarrow> Inl e
      | Inr body \<Rightarrow>
          Inr \<lparr>blob_type = js ''application/pdf'',
               download =
                 js ''id-dss-session-'' @ numberToString beyond sid @ js ''-''
                 @ firstPart (split 0x54 (toISOString now)) @ js ''.pdf''\<rparr>)"

text \<open>
  The file name as the interface description words it:
  \<^verbatim>\<open>id-dss-session-{id}-{ISO-date}.{ext}\<close> with the date as \<^verbatim>\<open>YYYY-MM-DD\<close>.
\<close>

definition isoDateYMD :: "js_date \<Rightarrow> jsstring" where
  "isoDateYMD d =
     [digitChar (nat (utc_year d) div 1000), digitChar (nat (utc_year d) div 100 mod 10),
      digitChar (nat (utc_year d) div 10 mod 10), digitChar (nat (utc_year d) mod 10),
      0x2D, digitChar (utc_month d div 10), digitChar (utc_month d mod 10),
      0x2D, digitChar (utc_day d div 10), digitChar (utc_day d mod 10)]"

definition exportFileName ::
  "(int \<Rightarrow> jsstring) \<Rightarrow> int \<Rightarrow> js_date \<Rightarrow> jsstring \<Rightarrow> jsstring" where
  "exportFileName beyond sid d ext =
     js ''id-dss-session-'' @ numberToString beyond sid @ js ''-'' @ isoDateYMD d
     @ js ''.'' @ ext"

text \<open>The form \<^verbatim>\<open>YYYY-MM-DD\<close>: ten characters, digits around two hyphens.\<close>

definition isYMD :: "jsstring \<Rightarrow> bool" where
  "isYMD s =
     (length s = 10 \<and> isDigit (s ! 0) \<and> isDigit (s ! 1) \<and> isDigit (s ! 2) \<and> isDigit (s ! 3)
      \<and> s ! 4 = 0x2D \<and> isDigit (s ! 5) \<and> isDigit (s ! 6)
      \<and> s ! 7 = 0x2D \<and> isDigit (s ! 8) \<and> isDigit (s ! 9))"

definition calendarDate :: "js_date \<Rightarrow> bool" where
  "calendarDate d =
     (0 \<le> utc_year d \<and> utc_year d \<le> 9999 \<and> 1 \<le> utc_month d \<and> utc_month d \<le> 12
      \<and> 1 \<le> utc_day d \<and> utc_day d \<le> 31)"

section \<open>Notions used in the statements and proofs\<close>

definition startsWithSpace :: "jsstring \<Rightarrow> bool" where
  "startsWithSpace s = (case s of [] \<Rightarrow> False | c # _ \<Rightarrow> isWhiteSpace c)"

definition endsWithSpace :: "jsstring \<Rightarrow> bool" where
  "endsWithSpace s = startsWithSpace (rev s)"

text \<open>A parsed objective: not empty, no white space around it, on one line.\<close>

definition tidy :: "jsstring \<Rightarrow> bool" where
  "tidy e = (e \<noteq> [] \<and> \<not> startsWithSpace e \<and> \<not> endsWithSpace e \<and> 0x0A \<notin> set e)"

text \<open>
  A leading list marker as the objectives form reads it: white space (possibly none),
  then a hyphen, an asterisk, a bullet, or a number followed by a dot, then at least
  one white-space character.
\<close>

definition allWhite :: "jsstring \<Rightarrow> bool" where
  "allWhite s = list_all isWhiteSpace s"

definition isMarker :: "jsstring \<Rightarrow> bool" where
  "isMarker m =
     ((case m of [c] \<Rightarrow> isBullet c | _ \<Rightarrow> False)
      \<or> (m \<noteq> [] \<and> last m = 0x2E \<and> butlast m \<noteq> [] \<and> list_all isDigit (butlast m)))"

text \<open>No carriage return is followed by a newline.\<close>

fun noCrLf :: "jsstring \<Rightarrow> bool" where
  "noCrLf [] = True"
| "noCrLf [c] = True"
| "noCrLf (a # b # r) = ((a \<noteq> 0x0D \<or> b \<noteq> 0x0A) \<and> noCrLf (b # r))"

section \<open>The session store: lookups, reset and frame properties\<close>

lemma designSteps_foldl:
  "designSteps (foldl applyOp st (map AddDesignStep steps)) = designSteps st @ steps"
  by (induction steps arbitrary: st) (simp_all add: addDesignStep_def)

lemma find_first_index:
  "(case find P xs of
      None \<Rightarrow> \<forall>i < length xs. \<not> P (xs ! i)
    | Some s \<Rightarrow> \<exists>i < length xs. xs ! i = s \<and> P s \<and> (\<forall>j < i. \<not> P (xs ! j)))"
proof (induction xs)
  case Nil
  then show ?case by simp
next
  case (Cons x xs)
  show ?case
  proof (cases "P x")
    case True
    then show ?thesis by auto
  next
    case False
    show ?thesis
    proof (cases "find P xs")
      case None
      with Cons False show ?thesis by (auto simp: nth_Cons split: nat.splits)
    next
      case (Some s)
      with Cons obtain i where i: "i < length xs" "xs ! i = s" "P s" "\<forall>j < i. \<not> P (xs ! j)"
        by auto
      have "\<forall>j < Suc i. \<not> P ((x # xs) ! j)"
        using False i(4) by (auto simp: nth_Cons split: nat.splits)
      with i Some False show ?thesis
        by (auto intro!: exI[of _ "Suc i"])
    qed
  qed
qed

text \<open>
  Claim C2. After any sequence of \<^verbatim>\<open>addDesignStep\<close> calls on a fresh store,
  \<^verbatim>\<open>currentStepForPhase(p)\<close> is the step at the least position of the sequence
  whose phase is \<open>p\<close>, and it is undefined exactly when no step of the sequence has
  phase \<open>p\<close>.
\<close>

theorem currentStepForPhase_first_inserted:
  "(case currentStepForPhase (runOps (map AddDesignStep steps)) p of
      None \<Rightarrow> \<forall>i < length steps. ds_phase (steps ! i) \<noteq> p
    | Some s \<Rightarrow> \<exists>i < length steps. steps ! i = s \<and> ds_phase s = p
                  \<and> (\<forall>j < i. ds_phase (steps ! j) \<noteq> p))"
  using find_first_index [where P = "\<lambda>step. ds_phase step = p" and xs = steps]
  by (simp add: currentStepForPhase_def runOps_def designSteps_foldl initialStore_def)

text \<open>
  Three steps are added, the second and the third with the phase asked for: the
  lookup returns the second.
\<close>

theorem currentStepForPhase_first_inserted_witness:
  "currentStepForPhase
     (runOps (map AddDesignStep
        [\<lparr>ds_id = 1, ds_session_id = 7, ds_phase = js ''context'', ds_user_input = None,
          ds_created_at = js ''t1''\<rparr>,
         \<lparr>ds_id = 2, ds_session_id = 7, ds_phase = js ''summary'', ds_user_input = None,
          ds_created_at = js ''t2''\<rparr>,
         \<lparr>ds_id = 3, ds_session_id = 7, ds_phase = js ''summary'', ds_user_input = None,
          ds_created_at = js ''t3''\<rparr>]))
     (js ''summary'')
   = Some \<lparr>ds_id = 2, ds_session_id = 7, ds_phase = js ''summary'', ds_user_input = None,
           ds_created_at = js ''t2''\<rparr>"
  using currentStepForPhase_first_inserted
    [of "[\<lparr>ds_id = 1, ds_session_id = 7, ds_phase = js ''context'', ds_user_input = None,
           ds_created_at = js ''t1''\<rparr>,
          \<lparr>ds_id = 2, ds_session_id = 7, ds_phase = js ''summary'', ds_user_input = None,
           ds_created_at = js ''t2''\<rparr>,
          \<lparr>ds_id = 3, ds_session_id = 7, ds_phase = js ''summary'', ds_user_input = None,
           ds_created_at = js ''t3''\<rparr>]" "js ''summary''"]
  by (simp add: currentStepForPhase_def runOps_def addDesignStep_def initialStore_def js_def)

text \<open>
  Claim C3. Whatever the state of the store, \<^verbatim>\<open>resetSession()\<close> leaves it equal to
  the state a fresh store is created with, field by field: no session, no session id,
  the empty form, empty lists of steps, recommendations and actions, no parsed
  analysis, no activity suggestions, the phase \<^verbatim>\<open>context\<close>, and both flags false.
  The getters then answer as on a fresh store.
\<close>

theorem resetSession_initial:
  fixes st :: session_store
  shows "resetSession st = initialStore
    \<and> currentSession (resetSession st) = None
    \<and> sessionId (resetSession st) = None
    \<and> courseContext (resetSession st) = emptyForm
    \<and> designSteps (resetSession st) = []
    \<and> recommendations (resetSession st) = []
    \<and> userActions (resetSession st) = []
    \<and> objectiveAnalysis (resetSession st) = None
    \<and> activitySuggestions (resetSession st) = []
    \<and> isLoading (resetSession st) = False
    \<and> isGenerating (resetSession st) = False
    \<and> hasActiveSession (resetSession st) = False
    \<and> currentStepForPhase (resetSession st) p = None
    \<and> recommendationsForStep (resetSession st) k = []"
  by (simp add: resetSession_def initialStore_def emptyForm_def hasActiveSession_def
      currentStepForPhase_def recommendationsForStep_def)

text \<open>
  Claim C6. After \<^verbatim>\<open>setCourseContext(f)\<close> and \<^verbatim>\<open>updateLearningObjectives(x)\<close> the
  stored form has the objectives \<open>x\<close>, and its title, level, modality and constraints
  are those of \<open>f\<close>.
\<close>

theorem updateLearningObjectives_frame:
  "learning_objectives (courseContext (updateLearningObjectives x (setCourseContext f st))) = x
   \<and> course_title (courseContext (updateLearningObjectives x (setCourseContext f st)))
       = course_title f
   \<and> level (courseContext (updateLearningObjectives x (setCourseContext f st))) = level f
   \<and> modality (courseContext (updateLearningObjectives x (setCourseContext f st)))
       = modality f
   \<and> constraints (courseContext (updateLearningObjectives x (setCourseContext f st)))
       = constraints f"
  by (simp add: updateLearningObjectives_def setCourseContext_def)

text \<open>
  Claim C7. \<^verbatim>\<open>setSession(s)\<close> makes \<open>s\<close> the current session and the id of \<open>s\<close> the
  session id, after it \<^verbatim>\<open>hasActiveSession\<close> is true, and every other field of the
  store (the lists of steps, recommendations and actions among them) is as before.
\<close>

theorem setSession_frame:
  "currentSession (setSession s st) = Some s
   \<and> sessionId (setSession s st) = Some (ses_id s)
   \<and> hasActiveSession (setSession s st)
   \<and> designSteps (setSession s st) = designSteps st
   \<and> recommendations (setSession s st) = recommendations st
   \<and> userActions (setSession s st) = userActions st
   \<and> courseContext (setSession s st) = courseContext st
   \<and> objectiveAnalysis (setSession s st) = objectiveAnalysis st
   \<and> activitySuggestions (setSession s st) = activitySuggestions st
   \<and> isLoading (setSession s st) = isLoading st
   \<and> isGenerating (setSession s st) = isGenerating st
   \<and> currentPhase (setSession s st) = currentPhase st"
  by (simp add: setSession_def hasActiveSession_def)

section \<open>stripMarkdown\<close>

text \<open>
  Claim C5. The markdown-stripping transform maps
  \<^verbatim>\<open>**bold** and `code` and [link](url)\<close> to \<^verbatim>\<open>bold and code and link\<close>.
\<close>

theorem stripMarkdown_scenario:
  "stripMarkdown (js ''**bold** and `code` and [link](url)'') = js ''bold and code and link''"
  by code_simp

lemma dropWhile_keeps_last:
  "xs \<noteq> [] \<Longrightarrow> \<not> P (last xs) \<Longrightarrow> dropWhile P xs \<noteq> [] \<and> last (dropWhile P xs) = last xs"
  by (induction xs) auto

lemma trim_no_leading: "\<not> startsWithSpace (trim s)"
proof (cases "dropWhile isWhiteSpace s")
  case Nil
  show ?thesis unfolding trim_def startsWithSpace_def Nil by simp
next
  case (Cons c r)
  then have c: "\<not> isWhiteSpace c"
    by (metis hd_dropWhile list.sel(1) list.distinct(1))
  let ?d = "rev (c # r)"
  have "?d \<noteq> []" "\<not> isWhiteSpace (last ?d)" using c by simp_all
  then have "dropWhile isWhiteSpace ?d \<noteq> [] \<and> last (dropWhile isWhiteSpace ?d) = last ?d"
    by (rule dropWhile_keeps_last)
  then have "rev (dropWhile isWhiteSpace ?d) \<noteq> []" "hd (rev (dropWhile isWhiteSpace ?d)) = c"
    by (simp_all add: hd_rev)
  then show ?thesis using c Cons
    by (cases "rev (dropWhile isWhiteSpace ?d)") (auto simp: trim_def startsWithSpace_def)
qed

lemma trim_no_trailing: "\<not> endsWithSpace (trim s)"
proof (cases "dropWhile isWhiteSpace (rev (dropWhile isWhiteSpace s))")
  case Nil
  show ?thesis unfolding trim_def endsWithSpace_def startsWithSpace_def rev_rev_ident Nil by simp
next
  case (Cons c r)
  then have "\<not> isWhiteSpace c"
    by (metis hd_dropWhile list.sel(1) list.distinct(1))
  then show ?thesis using Cons by (simp add: trim_def endsWithSpace_def startsWithSpace_def)
qed

text \<open>
  Claim C10. \<^verbatim>\<open>stripMarkdown\<close> is a total function on strings (every replacement
  pass terminates: \<open>greplace\<close> is defined by a recursion proved to terminate), it maps
  the empty string to the empty string, and its result neither starts nor ends with
  white space.
\<close>

theorem stripMarkdown_total:
  "stripMarkdown [] = []
   \<and> (\<exists>r. stripMarkdown t = r)
   \<and> \<not> startsWithSpace (stripMarkdown t) \<and> \<not> endsWithSpace (stripMarkdown t)"
proof -
  have "stripMarkdown [] = []" by code_simp
  moreover have "\<not> startsWithSpace (stripMarkdown t)"
    unfolding stripMarkdown_def by (rule trim_no_leading)
  moreover have "\<not> endsWithSpace (stripMarkdown t)"
    unfolding stripMarkdown_def by (rule trim_no_trailing)
  ultimately show ?thesis by simp
qed

section \<open>The objectives list: parsing and joining\<close>

lemma orEmpty_id: "orEmpty s = s"
  by (simp add: orEmpty_def)

lemma greplace_mCrLf_id: "noCrLf s \<Longrightarrow> greplace mCrLf prev s = s"
proof (induction s arbitrary: prev rule: noCrLf.induct)
  case 1
  then show ?case by (simp add: mCrLf_def)
next
  case (2 c)
  then show ?case by (simp add: mCrLf_def)
next
  case (3 a b r)
  then have "mCrLf prev (a # b # r) = None" by (auto simp: mCrLf_def)
  with 3 show ?case by simp
qed

lemma noCrLf_no_nl: "0x0A \<notin> set s \<Longrightarrow> noCrLf s"
  by (induction s rule: noCrLf.induct) auto

lemma noCrLf_append_nl:
  "noCrLf x \<Longrightarrow> noCrLf r \<Longrightarrow> x \<noteq> [] \<Longrightarrow> last x \<noteq> 0x0D \<Longrightarrow> noCrLf (x @ 0x0A # r)"
proof (induction x rule: noCrLf.induct)
  case 1
  then show ?case by simp
next
  case (2 c)
  then show ?case by (cases r) auto
next
  case (3 a b r')
  then show ?case by simp
qed

lemma tidy_last: "tidy e \<Longrightarrow> \<not> isWhiteSpace (last e)"
  by (cases "rev e") (auto simp: tidy_def endsWithSpace_def startsWithSpace_def last_rev)

lemma tidy_hd: "tidy e \<Longrightarrow> \<not> isWhiteSpace (hd e)"
  by (cases e) (auto simp: tidy_def startsWithSpace_def)

lemma ws_cr: "isWhiteSpace 0x0D"
  by (simp add: isWhiteSpace_def)

lemma joinNl_nonempty: "L \<noteq> [] \<Longrightarrow> \<forall>e \<in> set L. e \<noteq> [] \<Longrightarrow> joinNl L \<noteq> []"
  by (induction L rule: joinNl.induct) auto

lemma noCrLf_joinNl: "\<forall>e \<in> set L. tidy e \<Longrightarrow> noCrLf (joinNl L)"
proof (induction L rule: joinNl.induct)
  case 1
  then show ?case by simp
next
  case (2 x)
  then show ?case by (simp add: tidy_def noCrLf_no_nl)
next
  case (3 x y ys)
  then have x: "tidy x" and r: "noCrLf (joinNl (y # ys))" by simp_all
  have "last x \<noteq> 0x0D" using tidy_last [OF x] ws_cr by auto
  moreover have "noCrLf x" "x \<noteq> []" using x by (simp_all add: tidy_def noCrLf_no_nl)
  ultimately show ?case using r by (simp add: noCrLf_append_nl)
qed

lemma hd_joinNl: "L \<noteq> [] \<Longrightarrow> hd L \<noteq> [] \<Longrightarrow> hd (joinNl L) = hd (hd L)"
  by (induction L rule: joinNl.induct) auto

lemma last_joinNl: "L \<noteq> [] \<Longrightarrow> \<forall>e \<in> set L. e \<noteq> [] \<Longrightarrow> last (joinNl L) = last (last L)"
proof (induction L rule: joinNl.induct)
  case 1
  then show ?case by simp
next
  case (2 x)
  then show ?case by simp
next
  case (3 x y ys)
  then have "joinNl (y # ys) \<noteq> []" by (intro joinNl_nonempty) simp_all
  with 3 show ?case by simp
qed

lemma dropWhile_hd_id: "s \<noteq> [] \<Longrightarrow> \<not> P (hd s) \<Longrightarrow> dropWhile P s = s"
  by (cases s) auto

lemma trim_id: "s \<noteq> [] \<Longrightarrow> \<not> isWhiteSpace (hd s) \<Longrightarrow> \<not> isWhiteSpace (last s) \<Longrightarrow> trim s = s"
  by (simp add: trim_def dropWhile_hd_id hd_rev)

lemma trim_tidy: "tidy e \<Longrightarrow> trim e = e"
  using tidy_hd tidy_last by (simp add: trim_id tidy_def)

lemma trim_joinNl:
  assumes "L \<noteq> []" "\<forall>e \<in> set L. tidy e"
  shows "trim (joinNl L) = joinNl L"
proof -
  have hdL: "tidy (hd L)" and lastL: "tidy (last L)" using assms by simp_all
  have ne: "\<forall>e \<in> set L. e \<noteq> []" using assms(2) by (simp add: tidy_def)
  have "joinNl L \<noteq> []" using assms(1) ne by (rule joinNl_nonempty)
  moreover have "\<not> isWhiteSpace (hd (joinNl L))"
    using hd_joinNl [OF assms(1)] hdL tidy_hd [OF hdL] by (simp add: tidy_def)
  moreover have "\<not> isWhiteSpace (last (joinNl L))"
    using last_joinNl [OF assms(1) ne] tidy_last [OF lastL] by simp
  ultimately show ?thesis by (rule trim_id)
qed

lemma split_no_sep: "sep \<notin> set x \<Longrightarrow> split sep x = [x]"
  by (induction x) auto

lemma split_append_sep: "sep \<notin> set x \<Longrightarrow> split sep (x @ sep # r) = x # split sep r"
  by (induction x) auto

lemma split_joinNl: "L \<noteq> [] \<Longrightarrow> \<forall>e \<in> set L. 0x0A \<notin> set e \<Longrightarrow> split 0x0A (joinNl L) = L"
proof (induction L rule: joinNl.induct)
  case 1
  then show ?case by simp
next
  case (2 x)
  then show ?case by (simp add: split_no_sep)
next
  case (3 x y ys)
  then show ?case by (simp add: split_append_sep)
qed

lemma split_elements: "e \<in> set (split sep s) \<Longrightarrow> sep \<notin> set e"
proof (induction s arbitrary: e)
  case Nil
  then show ?case by simp
next
  case (Cons c cs)
  then show ?case
    by (cases "split sep cs") (auto split: if_splits)
qed

lemma set_trim: "set (trim s) \<subseteq> set s"
  by (auto simp: trim_def dest!: set_dropWhileD)

lemma set_wsPlus: "wsPlus s = Some r \<Longrightarrow> set r \<subseteq> set s"
  by (auto simp: wsPlus_def split: list.splits if_splits dest: set_dropWhileD)

lemma set_listMarker: "listMarker s = Some r \<Longrightarrow> set r \<subseteq> set s"
proof -
  assume a: "listMarker s = Some r"
  show ?thesis
  proof (cases "dropWhile isWhiteSpace s")
    case Nil
    with a show ?thesis by (simp add: listMarker_def)
  next
    case (Cons c r0)
    have sub0: "set r0 \<subseteq> set s"
      using Cons set_dropWhileD [of _ isWhiteSpace s] by auto
    show ?thesis
    proof (cases "isBullet c")
      case True
      with a Cons have "wsPlus r0 = Some r" by (simp add: listMarker_def)
      then show ?thesis using set_wsPlus sub0 by blast
    next
      case False
      with a Cons obtain d r1 where d: "dropWhile isDigit r0 = d # r1" "wsPlus r1 = Some r"
        by (auto simp: listMarker_def split: if_splits list.splits)
      have "set r1 \<subseteq> set r0" using d(1) set_dropWhileD [of _ isDigit r0] by auto
      then show ?thesis using set_wsPlus [OF d(2)] sub0 by blast
    qed
  qed
qed

lemma set_normalize: "set (normalizeObjectiveLine l) \<subseteq> set l"
proof (cases "listMarker l")
  case None
  then show ?thesis using set_trim by (simp add: normalizeObjectiveLine_def orEmpty_id)
next
  case (Some r)
  then show ?thesis using set_trim [of r] set_listMarker [OF Some]
    by (auto simp: normalizeObjectiveLine_def orEmpty_id)
qed

lemma normalize_trimmed:
  "\<not> startsWithSpace (normalizeObjectiveLine l) \<and> \<not> endsWithSpace (normalizeObjectiveLine l)"
  by (simp add: normalizeObjectiveLine_def trim_no_leading trim_no_trailing)

lemma parse_elements_tidy: "e \<in> set (parseObjectivesText t) \<Longrightarrow> tidy e"
proof -
  assume "e \<in> set (parseObjectivesText t)"
  then obtain l where l: "l \<in> set (split 0x0A (trim (greplace mCrLf None (orEmpty t))))"
      and e: "e = normalizeObjectiveLine l" "e \<noteq> []"
    by (auto simp: parseObjectivesText_def Let_def split: if_splits)
  have "0x0A \<notin> set l" using l by (rule split_elements)
  then have "0x0A \<notin> set e" using set_normalize [of l] e(1) by auto
  then show ?thesis using e normalize_trimmed [of l] by (simp add: tidy_def)
qed

lemma normalize_fixed: "tidy e \<Longrightarrow> listMarker e = None \<Longrightarrow> normalizeObjectiveLine e = e"
  by (simp add: normalizeObjectiveLine_def orEmpty_id trim_tidy)

lemma parse_joinNl:
  assumes "\<forall>e \<in> set L. tidy e" "\<forall>e \<in> set L. listMarker e = None"
  shows "parseObjectivesText (joinNl L) = L"
proof (cases "L = []")
  case True
  then show ?thesis by (simp add: parseObjectivesText_def orEmpty_def mCrLf_def trim_def)
next
  case False
  have raw: "trim (greplace mCrLf None (orEmpty (joinNl L))) = joinNl L"
    using noCrLf_joinNl [OF assms(1)] trim_joinNl [OF False assms(1)]
    by (simp add: orEmpty_id greplace_mCrLf_id)
  have ne: "joinNl L \<noteq> []"
    using False assms(1) by (intro joinNl_nonempty) (auto simp: tidy_def)
  have sp: "split 0x0A (joinNl L) = L"
    using False assms(1) by (intro split_joinNl) (auto simp: tidy_def)
  have "map normalizeObjectiveLine L = L"
    using assms by (simp add: map_idI normalize_fixed)
  moreover have "filter (\<lambda>l. l \<noteq> []) L = L"
    using assms(1) by (simp add: tidy_def)
  ultimately show ?thesis
    using ne by (simp add: parseObjectivesText_def raw sp)
qed

lemma digit_not_ws:
  assumes "isDigit c"
  shows "\<not> isWhiteSpace c"
proof
  assume w: "isWhiteSpace c"
  have le: "c \<le> 0x39" "0x30 \<le> c" using assms by (simp_all add: isDigit_def)
  have "\<not> 0x2000 \<le> c"
  proof
    assume "0x2000 \<le> c"
    then have "(0x2000 :: 16 word) \<le> 0x39" using le(1) by (rule order_trans)
    then show False by simp
  qed
  with w le show False by (auto simp: isWhiteSpace_def)
qed

lemma bullet_not_ws: "isBullet c \<Longrightarrow> \<not> isWhiteSpace c"
  by (auto simp: isBullet_def isWhiteSpace_def)

lemma digit_not_bullet: "isDigit c \<Longrightarrow> \<not> isBullet c"
  by (auto simp: isDigit_def isBullet_def)

lemma dot_not_digit: "\<not> isDigit 0x2E"
  by (simp add: isDigit_def)

lemma dropWhile_allWhite: "allWhite ws \<Longrightarrow> dropWhile isWhiteSpace (ws @ r) = dropWhile isWhiteSpace r"
  by (simp add: allWhite_def list_all_iff)

lemma wsPlus_white:
  assumes "ws' \<noteq> []" "allWhite ws'"
  shows "wsPlus (ws' @ body) = Some (dropWhile isWhiteSpace body)"
proof -
  obtain c r where c: "ws' = c # r" using assms(1) by (cases ws') auto
  then have "isWhiteSpace c" using assms(2) by (simp add: allWhite_def)
  then show ?thesis
    using dropWhile_allWhite [OF assms(2), of body] c by (simp add: wsPlus_def)
qed

lemma listMarker_strip:
  assumes "allWhite ws" "isMarker m" "ws' \<noteq> []" "allWhite ws'"
  shows "listMarker (ws @ m @ ws' @ body) = Some (dropWhile isWhiteSpace body)"
proof -
  have tail: "wsPlus (ws' @ body) = Some (dropWhile isWhiteSpace body)"
    using assms(3,4) by (rule wsPlus_white)
  consider (bullet) c where "m = [c]" "isBullet c"
    | (number) "m \<noteq> []" "last m = 0x2E" "butlast m \<noteq> []" "list_all isDigit (butlast m)"
    using assms(2) by (auto simp: isMarker_def split: list.splits)
  then show ?thesis
  proof cases
    case bullet
    then have "dropWhile isWhiteSpace (ws @ m @ ws' @ body) = c # ws' @ body"
      using dropWhile_allWhite [OF assms(1)] bullet_not_ws by simp
    then show ?thesis using bullet tail by (simp add: listMarker_def)
  next
    case number
    then obtain d ds where m: "m = d # ds @ [0x2E]" and d: "isDigit d" and ds: "list_all isDigit ds"
      by (cases m rule: rev_cases; cases "butlast m") auto
    have "dropWhile isWhiteSpace (ws @ m @ ws' @ body) = d # ds @ 0x2E # ws' @ body"
      using dropWhile_allWhite [OF assms(1)] digit_not_ws [OF d] m by simp
    moreover have "dropWhile isDigit (ds @ 0x2E # ws' @ body) = 0x2E # ws' @ body"
      using ds dot_not_digit by (simp add: list_all_iff dropWhile_append2)
    ultimately show ?thesis
      using d digit_not_bullet [OF d] tail by (simp add: listMarker_def)
  qed
qed

lemma trim_dropWhile: "trim (dropWhile isWhiteSpace s) = trim s"
  by (simp add: trim_def)

lemma normalize_strips_one:
  assumes "allWhite ws" "isMarker m" "ws' \<noteq> []" "allWhite ws'"
  shows "normalizeObjectiveLine (ws @ m @ ws' @ body) = trim body"
  using listMarker_strip [OF assms, of body]
  by (simp add: normalizeObjectiveLine_def orEmpty_id trim_dropWhile)

lemma wsPlus_decomp:
  assumes "wsPlus r = Some rest"
  shows "\<exists>ws'. r = ws' @ rest \<and> ws' \<noteq> [] \<and> allWhite ws'"
proof -
  from assms obtain c r' where r: "r = c # r'" "isWhiteSpace c" "rest = dropWhile isWhiteSpace r"
    by (auto simp: wsPlus_def split: list.splits if_splits)
  have "r = takeWhile isWhiteSpace r @ rest" using r(3) by simp
  moreover have "takeWhile isWhiteSpace r \<noteq> []" using r(1,2) by simp
  moreover have "allWhite (takeWhile isWhiteSpace r)"
    by (auto simp: allWhite_def list_all_iff dest: set_takeWhileD)
  ultimately show ?thesis by blast
qed

lemma listMarker_decomp:
  assumes "listMarker s = Some rest"
  shows "\<exists>ws m ws'. s = ws @ m @ ws' @ rest \<and> allWhite ws \<and> isMarker m \<and> ws' \<noteq> []
           \<and> allWhite ws'"
proof -
  let ?ws = "takeWhile isWhiteSpace s"
  have ws: "allWhite ?ws" by (auto simp: allWhite_def list_all_iff dest: set_takeWhileD)
  have s: "s = ?ws @ dropWhile isWhiteSpace s" by simp
  from assms obtain c r where cr: "dropWhile isWhiteSpace s = c # r"
    by (cases "dropWhile isWhiteSpace s") (auto simp: listMarker_def)
  show ?thesis
  proof (cases "isBullet c")
    case True
    with assms cr have "wsPlus r = Some rest" by (simp add: listMarker_def)
    then obtain ws' where w: "r = ws' @ rest" "ws' \<noteq> []" "allWhite ws'"
      using wsPlus_decomp by blast
    have "isMarker [c]" using True by (simp add: isMarker_def)
    moreover have "s = ?ws @ [c] @ ws' @ rest" using s cr w(1) by simp
    ultimately show ?thesis using ws w(2,3) by blast
  next
    case False
    with assms cr obtain r1 where d: "isDigit c" "dropWhile isDigit r = 0x2E # r1"
        "wsPlus r1 = Some rest"
      by (auto simp: listMarker_def split: if_splits list.splits)
    then obtain ws' where w: "r1 = ws' @ rest" "ws' \<noteq> []" "allWhite ws'"
      using wsPlus_decomp by blast
    let ?m = "c # takeWhile isDigit r @ [0x2E]"
    have "list_all isDigit (c # takeWhile isDigit r)"
      using d(1) by (auto simp: list_all_iff dest: set_takeWhileD)
    then have "isMarker ?m" by (simp add: isMarker_def butlast_append)
    moreover have "r = takeWhile isDigit r @ 0x2E # r1"
      using d(2) takeWhile_dropWhile_id [of isDigit r] by simp
    then have "s = ?ws @ ?m @ ws' @ rest" using s cr w(1) by simp
    ultimately show ?thesis using ws w(2,3) by blast
  qed
qed

lemma listMarker_iff:
  "(listMarker line \<noteq> None) =
     (\<exists>ws m ws' body. line = ws @ m @ ws' @ body \<and> allWhite ws \<and> isMarker m \<and> ws' \<noteq> []
        \<and> allWhite ws')"
proof
  assume "listMarker line \<noteq> None"
  then obtain rest where "listMarker line = Some rest" by auto
  then show "\<exists>ws m ws' body. line = ws @ m @ ws' @ body \<and> allWhite ws \<and> isMarker m \<and> ws' \<noteq> []
        \<and> allWhite ws'"
    using listMarker_decomp by blast
next
  assume "\<exists>ws m ws' body. line = ws @ m @ ws' @ body \<and> allWhite ws \<and> isMarker m \<and> ws' \<noteq> []
        \<and> allWhite ws'"
  then show "listMarker line \<noteq> None" using listMarker_strip by auto
qed

lemma parse_eq:
  "parseObjectivesText t =
     filter (\<lambda>l. l \<noteq> []) (map normalizeObjectiveLine (split 0x0A (trim (greplace mCrLf None t))))"
proof (cases "trim (greplace mCrLf None t) = []")
  case True
  have "normalizeObjectiveLine [] = []"
    by (simp add: normalizeObjectiveLine_def orEmpty_def listMarker_def trim_def)
  then show ?thesis using True by (simp add: parseObjectivesText_def orEmpty_id)
next
  case False
  then show ?thesis by (simp add: parseObjectivesText_def orEmpty_id)
qed

text \<open>
  Claim C9, as amended. The elements of \<^verbatim>\<open>parseObjectivesText(t)\<close> are, in order,
  the non-empty results of \<^verbatim>\<open>normalizeObjectiveLine\<close> on the lines of the trimmed
  text. \<^verbatim>\<open>normalizeObjectiveLine\<close> takes exactly one leading list marker off a line
  that begins with one and trims what follows, so a second marker stays; a line that
  does not begin with a marker is only trimmed. Every element is a non-empty string on
  one line with no white space around it. For every \<open>t\<close> whose parsed elements do
  not begin with a list marker, joining the parsed list and parsing it again gives the
  same list.
\<close>

theorem parseObjectives_normal_form:
  "parseObjectivesText t =
     filter (\<lambda>l. l \<noteq> [])
       (map normalizeObjectiveLine (split 0x0A (trim (greplace mCrLf None t))))
   \<and> (allWhite ws \<and> isMarker m \<and> ws' \<noteq> [] \<and> allWhite ws' \<longrightarrow>
        normalizeObjectiveLine (ws @ m @ ws' @ body) = trim body)
   \<and> (listMarker line \<noteq> None) =
        (\<exists>ws m ws' body. line = ws @ m @ ws' @ body \<and> allWhite ws \<and> isMarker m
           \<and> ws' \<noteq> [] \<and> allWhite ws')
   \<and> (listMarker line = None \<longrightarrow> normalizeObjectiveLine line = trim line)
   \<and> (\<forall>e \<in> set (parseObjectivesText t).
        e \<noteq> [] \<and> \<not> startsWithSpace e \<and> \<not> endsWithSpace e \<and> 0x0A \<notin> set e)
   \<and> ((\<forall>e \<in> set (parseObjectivesText t). listMarker e = None) \<longrightarrow>
        parseObjectivesText (joinObjectives (parseObjectivesText t)) = parseObjectivesText t)"
proof -
  let ?L = "parseObjectivesText t"
  have tidyL: "\<forall>e \<in> set ?L. tidy e" using parse_elements_tidy by blast
  then have elems: "\<forall>e \<in> set ?L.
      e \<noteq> [] \<and> \<not> startsWithSpace e \<and> \<not> endsWithSpace e \<and> 0x0A \<notin> set e"
    by (simp add: tidy_def)
  have idem: "parseObjectivesText (joinObjectives ?L) = ?L"
    if fixed: "\<forall>e \<in> set ?L. listMarker e = None"
  proof -
    have "map normalizeObjectiveLine ?L = ?L"
      using tidyL fixed by (simp add: map_idI normalize_fixed)
    moreover have "filter (\<lambda>l. l \<noteq> []) ?L = ?L"
      using tidyL by (simp add: tidy_def)
    ultimately have "joinObjectives ?L = joinNl ?L" by (simp add: joinObjectives_def)
    then show ?thesis using parse_joinNl [OF tidyL fixed] by simp
  qed
  have strip: "allWhite ws \<and> isMarker m \<and> ws' \<noteq> [] \<and> allWhite ws' \<longrightarrow>
      normalizeObjectiveLine (ws @ m @ ws' @ body) = trim body"
    using normalize_strips_one by blast
  have plain: "listMarker line = None \<longrightarrow> normalizeObjectiveLine line = trim line"
    by (simp add: normalizeObjectiveLine_def orEmpty_id)
  show ?thesis
    using parse_eq [of t] strip listMarker_iff [of line] plain elems idem
    by (intro conjI) blast+
qed

text \<open>
  The text with three marked lines parses to three plain objectives, and parsing the
  joined list returns them again. The line \<^verbatim>\<open>1. - foo\<close> after two blanks loses its
  number and keeps the hyphen.
\<close>

theorem parseObjectives_normal_form_witness:
  "parseObjectivesText (js ''1. a  '' @ [0x0D, 0x0A] @ js '' * b'' @ [0x0A, 0x0A, 0x2022, 0x20] @ js ''c'')
     = [js ''a'', js ''b'', js ''c'']
   \<and> parseObjectivesText (joinObjectives (parseObjectivesText
        (js ''1. a  '' @ [0x0D, 0x0A] @ js '' * b'' @ [0x0A, 0x0A, 0x2022, 0x20] @ js ''c'')))
     = [js ''a'', js ''b'', js ''c'']
   \<and> normalizeObjectiveLine (js ''  '' @ js ''1.'' @ js '' '' @ js ''- foo'') = js ''- foo''
   \<and> normalizeObjectiveLine (js '' foo: 1. bar '') = js ''foo: 1. bar''"
proof -
  define t where "t = js ''1. a  '' @ [0x0D, 0x0A] @ js '' * b'' @ [0x0A, 0x0A, 0x2022, 0x20] @ js ''c''"
  note inst = parseObjectives_normal_form
    [where t = t and ws = "js ''  ''" and m = "js ''1.''" and ws' = "js '' ''"
       and body = "js ''- foo''" and line = "js '' foo: 1. bar ''"]
  note strip = inst [THEN conjunct2, THEN conjunct1]
  note plain = inst [THEN conjunct2, THEN conjunct2, THEN conjunct2, THEN conjunct1]
  note again = inst [THEN conjunct2, THEN conjunct2, THEN conjunct2, THEN conjunct2,
      THEN conjunct2]
  have p: "parseObjectivesText t = [js ''a'', js ''b'', js ''c'']"
    unfolding t_def by code_simp
  have "listMarker (js ''a'') = None" "listMarker (js ''b'') = None" "listMarker (js ''c'') = None"
    by code_simp+
  then have "\<forall>e \<in> set (parseObjectivesText t). listMarker e = None"
    unfolding p by simp
  with again have "parseObjectivesText (joinObjectives (parseObjectivesText t))
      = parseObjectivesText t"
    by (rule mp)
  then have idem: "parseObjectivesText (joinObjectives (parseObjectivesText t))
      = [js ''a'', js ''b'', js ''c'']"
    unfolding p .
  have "allWhite (js ''  '') \<and> isMarker (js ''1.'') \<and> js '' '' \<noteq> [] \<and> allWhite (js '' '')"
    by code_simp
  with strip have one: "normalizeObjectiveLine (js ''  '' @ js ''1.'' @ js '' '' @ js ''- foo'')
      = trim (js ''- foo'')"
    by (rule mp)
  have "listMarker (js '' foo: 1. bar '') = None" by code_simp
  with plain have none: "normalizeObjectiveLine (js '' foo: 1. bar '') = trim (js '' foo: 1. bar '')"
    by (rule mp)
  have tr: "trim (js ''- foo'') = js ''- foo''" "trim (js '' foo: 1. bar '') = js ''foo: 1. bar''"
    by code_simp+
  show ?thesis using p idem one none tr unfolding t_def by simp
qed

text \<open>
  Claim C9 as stated fails: the line \<^verbatim>\<open>- - foo\<close> parses to the element \<^verbatim>\<open>- foo\<close>,
  which still begins with a list marker, and joining and parsing once more gives
  \<^verbatim>\<open>foo\<close>.
\<close>

theorem parseObjectives_not_idempotent:
  "parseObjectivesText (js ''- - foo'') = [js ''- foo'']
   \<and> listMarker (js ''- foo'') = Some (js ''foo'')
   \<and> parseObjectivesText (joinObjectives (parseObjectivesText (js ''- - foo'')))
       \<noteq> parseObjectivesText (js ''- - foo'')"
  by code_simp

section \<open>The objective-analysis view: draft and baseline\<close>

text \<open>
  From its setup on, the view has a baseline: the first run of the watcher sets the
  flag, and no operation clears it.
\<close>

lemma watchObjectives_baseline: "hasSavedBaseline (watchObjectives val v)"
  by (simp add: watchObjectives_def Let_def)

lemma mountView_baseline: "hasSavedBaseline (mountView st)"
  by (simp add: mountView_def watchObjectives_baseline)

lemma storeChanged_baseline: "hasSavedBaseline v \<Longrightarrow> hasSavedBaseline (storeChanged old new v)"
  by (simp add: storeChanged_def watchObjectives_baseline)

lemma storeChanged_own_draft:
  assumes "hasSavedBaseline v"
  shows "storeChanged st (updateLearningObjectives (objectivesDraft v) st) v = v"
  using assms
  by (simp add: storeChanged_def watchObjectives_def updateLearningObjectives_def orEmpty_id Let_def)

lemma saveObjectives_baseline:
  "hasSavedBaseline v \<Longrightarrow> hasSavedBaseline (snd (saveObjectives upd (st, v)))"
  by (auto simp: saveObjectives_def persistObjectives_def Let_def storeChanged_baseline
      split: sum.splits option.splits prod.splits)

lemma runAnalysis_baseline:
  "hasSavedBaseline v \<Longrightarrow> hasSavedBaseline (snd (runAnalysis upd ana now (st, v)))"
  by (auto simp: runAnalysis_def Let_def storeChanged_baseline
      split: sum.splits option.splits prod.splits)

text \<open>
  Claim C4. When the learning objectives held by the store change after the view has
  been set up: if the field is clean (the draft equals the baseline) the draft becomes
  the new value of the store; if it is dirty the draft stays as it is. The baseline is
  not touched either way.
\<close>

theorem external_sync:
  assumes "hasSavedBaseline v"
    and "learning_objectives (courseContext st') \<noteq> learning_objectives (courseContext st)"
  shows "objectivesDraft (storeChanged st st' v) =
           (if isDirty v then objectivesDraft v else learning_objectives (courseContext st'))
       \<and> lastSavedObjectives (storeChanged st st' v) = lastSavedObjectives v"
  using assms by (simp add: storeChanged_def watchObjectives_def orEmpty_id Let_def)

text \<open>
  The store's objectives change from empty to a text: a freshly mounted view takes the
  text over, a view with an unsaved edit keeps the edit.
\<close>

theorem external_sync_witness:
  "objectivesDraft
     (storeChanged initialStore (updateLearningObjectives (js ''Explain X'') initialStore)
        (mountView initialStore)) = js ''Explain X''
   \<and> objectivesDraft
     (storeChanged initialStore (updateLearningObjectives (js ''Explain X'') initialStore)
        ((mountView initialStore)\<lparr>objectivesDraft := js ''my edit''\<rparr>)) = js ''my edit''"
proof -
  let ?st' = "updateLearningObjectives (js ''Explain X'') initialStore"
  have ch: "learning_objectives (courseContext ?st')
      \<noteq> learning_objectives (courseContext initialStore)"
    by (simp add: updateLearningObjectives_def initialStore_def emptyForm_def js_def)
  have b1: "hasSavedBaseline (mountView initialStore)" by (rule mountView_baseline)
  have b2: "hasSavedBaseline ((mountView initialStore)\<lparr>objectivesDraft := js ''my edit''\<rparr>)"
    using b1 by simp
  have c: "\<not> isDirty (mountView initialStore)"
    by (simp add: mountView_def watchObjectives_def isDirty_def initialView_def Let_def)
  have d: "isDirty ((mountView initialStore)\<lparr>objectivesDraft := js ''my edit''\<rparr>)"
    by (simp add: mountView_def watchObjectives_def isDirty_def initialView_def Let_def
        initialStore_def emptyForm_def orEmpty_def js_def)
  have e: "learning_objectives (courseContext ?st') = js ''Explain X''"
    by (simp add: updateLearningObjectives_def)
  show ?thesis
    using external_sync [OF b1 ch] external_sync [OF b2 ch] c d e by simp
qed

text \<open>
  The Save button (\<^verbatim>\<open>saveObjectives\<close>, through \<^verbatim>\<open>persistObjectives\<close>): a failed
  call leaves baseline and draft as they were, a successful call sets the baseline to
  the objectives of the session the server returned. \<^verbatim>\<open>runAnalysis\<close> keeps the
  baseline when its persistence call fails, and sets it to the draft when the call
  succeeds, whatever the server returned.
\<close>

lemma saveObjectives_failed:
  assumes "hasSavedBaseline v" "truthyId (sessionId st)"
  shows "lastSavedObjectives (snd (saveObjectives (Inl e) (st, v))) = lastSavedObjectives v
       \<and> objectivesDraft (snd (saveObjectives (Inl e) (st, v))) = objectivesDraft v
       \<and> isDirty (snd (saveObjectives (Inl e) (st, v))) = isDirty v"
proof -
  let ?v1 = "v\<lparr>isSaving := True, errorMessage := [], successMessage := []\<rparr>"
  have "hasSavedBaseline ?v1" "objectivesDraft ?v1 = objectivesDraft v" using assms(1) by simp_all
  then have "storeChanged st (updateLearningObjectives (objectivesDraft v) st) ?v1 = ?v1"
    using storeChanged_own_draft [of ?v1 st] by simp
  moreover have "truthyId (sessionId (updateLearningObjectives (objectivesDraft v) st))"
    using assms(2) by (simp add: updateLearningObjectives_def)
  ultimately show ?thesis
    using assms(2) by (simp add: saveObjectives_def persistObjectives_def Let_def isDirty_def)
qed

lemma saveObjectives_succeeded:
  assumes "hasSavedBaseline v" "truthyId (sessionId st)"
    and "ses_learning_objectives session = Some S"
  shows "lastSavedObjectives (snd (saveObjectives (Inr session) (st, v))) = S
       \<and> objectivesDraft (snd (saveObjectives (Inr session) (st, v))) = objectivesDraft v"
proof -
  let ?v1 = "v\<lparr>isSaving := True, errorMessage := [], successMessage := []\<rparr>"
  have "hasSavedBaseline ?v1" "objectivesDraft ?v1 = objectivesDraft v" using assms(1) by simp_all
  then have "storeChanged st (updateLearningObjectives (objectivesDraft v) st) ?v1 = ?v1"
    using storeChanged_own_draft [of ?v1 st] by simp
  moreover have "truthyId (sessionId (updateLearningObjectives (objectivesDraft v) st))"
    using assms(2) by (simp add: updateLearningObjectives_def)
  ultimately show ?thesis
    using assms(2,3) by (simp add: saveObjectives_def persistObjectives_def Let_def)
qed

lemma runAnalysis_persist:
  assumes "hasSavedBaseline v" "truthyId (sessionId st)"
  shows "lastSavedObjectives (snd (runAnalysis (Inl e) ana now (st, v))) = lastSavedObjectives v"
    and "lastSavedObjectives (snd (runAnalysis (Inr session) ana now (st, v))) = objectivesDraft v"
    and "objectivesDraft (snd (runAnalysis upd ana now (st, v))) = objectivesDraft v"
proof -
  let ?v1 = "v\<lparr>isAnalyzing := True, errorMessage := [], successMessage := []\<rparr>"
  have "hasSavedBaseline ?v1" "objectivesDraft ?v1 = objectivesDraft v" using assms(1) by simp_all
  then have sc: "storeChanged st (updateLearningObjectives (objectivesDraft v) st) ?v1 = ?v1"
    using storeChanged_own_draft [of ?v1 st] by simp
  obtain sid where sid: "sessionId st = Some sid" "sid \<noteq> 0"
    using assms(2) by (auto simp: truthyId_def split: option.splits)
  show "lastSavedObjectives (snd (runAnalysis (Inl e) ana now (st, v))) = lastSavedObjectives v"
    using sid sc by (cases ana) (simp_all add: runAnalysis_def Let_def)
  show "lastSavedObjectives (snd (runAnalysis (Inr session) ana now (st, v))) = objectivesDraft v"
    using sid sc by (cases ana) (simp_all add: runAnalysis_def Let_def)
  show "objectivesDraft (snd (runAnalysis upd ana now (st, v))) = objectivesDraft v"
    using sid sc by (cases ana; cases upd) (simp_all add: runAnalysis_def Let_def)
qed

lemma saveObjectives_baseline_from_server:
  "lastSavedObjectives (snd (saveObjectives
      (Inr \<lparr>ses_id = 1, ses_course_title = js ''Intro to ML'', ses_level = js ''undergraduate'',
            ses_modality = js ''online'', ses_constraints = None,
            ses_learning_objectives = Some (js ''Explain gradient descent''),
            ses_created_at = js ''2026-01-01T00:00:00Z''\<rparr>)
      (initialStore\<lparr>sessionId := Some 1\<rparr>,
       initialView\<lparr>objectivesDraft := js '' Explain gradient descent '',
                   lastSavedObjectives := js ''Explain'', hasSavedBaseline := True\<rparr>)))
   = js ''Explain gradient descent''"
  by code_simp

text \<open>
  Claim C1 (the successful persistence call sets the baseline to the value the server
  returned) does not hold on the path through \<^verbatim>\<open>runAnalysis\<close>. The draft is
  \<^verbatim>\<open>" Explain gradient descent "\<close>, the persistence call succeeds and the server
  returns the session with the objectives \<^verbatim>\<open>"Explain gradient descent"\<close>: the
  baseline becomes the draft, not the returned value.
\<close>

theorem runAnalysis_baseline_from_draft:
  "lastSavedObjectives (snd (runAnalysis
      (Inr \<lparr>ses_id = 1, ses_course_title = js ''Intro to ML'', ses_level = js ''undergraduate'',
            ses_modality = js ''online'', ses_constraints = None,
            ses_learning_objectives = Some (js ''Explain gradient descent''),
            ses_created_at = js ''2026-01-01T00:00:00Z''\<rparr>)
      (Inl NetworkError) (js ''2026-01-02T00:00:00.000Z'')
      (initialStore\<lparr>sessionId := Some 1\<rparr>,
       initialView\<lparr>objectivesDraft := js '' Explain gradient descent '',
                   lastSavedObjectives := js ''Explain'', hasSavedBaseline := True\<rparr>)))
   = js '' Explain gradient descent ''
   \<and> js '' Explain gradient descent '' \<noteq> js ''Explain gradient descent''"
  by code_simp

section \<open>Export downloads: the file name\<close>

lemma digitChar_not_T: "d < 10 \<Longrightarrow> digitChar d \<noteq> 0x54"
proof -
  assume "d < 10"
  then have "d \<in> {0, 1, 2, 3, 4, 5, 6, 7, 8, 9}" by auto
  then show ?thesis by (auto simp: digitChar_def)
qed

lemma digitsOf_1: "n < 10 \<Longrightarrow> digitsOf n = [digitChar n]"
  by (simp add: digitsOf.simps)

lemma digitsOf_2: "10 \<le> n \<Longrightarrow> n < 100 \<Longrightarrow> digitsOf n = [digitChar (n div 10), digitChar (n mod 10)]"
  by (subst digitsOf.simps) (simp add: digitsOf_1)

lemma digitsOf_3:
  assumes "100 \<le> n" "n < 1000"
  shows "digitsOf n = [digitChar (n div 100), digitChar (n div 10 mod 10), digitChar (n mod 10)]"
proof -
  have a: "10 \<le> n div 10" "n div 10 < 100" using assms by auto
  have b: "n div 10 div 10 = n div 100" by (simp add: div_mult2_eq)
  show ?thesis
    using assms by (subst digitsOf.simps) (simp add: digitsOf_2 [OF a] b)
qed

lemma digitsOf_4:
  assumes "1000 \<le> n" "n < 10000"
  shows "digitsOf n = [digitChar (n div 1000), digitChar (n div 100 mod 10),
                 digitChar (n div 10 mod 10), digitChar (n mod 10)]"
proof -
  have a: "100 \<le> n div 10" "n div 10 < 1000" using assms by auto
  have b: "n div 10 div 100 = n div 1000" "n div 10 div 10 = n div 100"
    by (simp_all add: div_mult2_eq)
  show ?thesis
    using assms by (subst digitsOf.simps) (simp add: digitsOf_3 [OF a] b)
qed


lemma digitChar_0: "digitChar 0 = 0x30"
  by (simp add: digitChar_def)

lemma replicate_small:
  "replicate (Suc 0) x = [x]" "replicate 2 x = [x, x]" "replicate 3 x = [x, x, x]"
  by (simp_all add: numeral_2_eq_2 numeral_3_eq_3)

lemma pad2: "n < 100 \<Longrightarrow> padStart0 2 (digitsOf n) = [digitChar (n div 10), digitChar (n mod 10)]"
  by (cases "n < 10") (simp_all add: padStart0_def digitsOf_1 digitsOf_2 digitChar_0 replicate_small)

lemma pad4:
  assumes "n < 10000"
  shows "padStart0 4 (digitsOf n) =
    [digitChar (n div 1000), digitChar (n div 100 mod 10),
     digitChar (n div 10 mod 10), digitChar (n mod 10)]"
proof -
  consider "n < 10" | "10 \<le> n" "n < 100" | "100 \<le> n" "n < 1000" | "1000 \<le> n"
    by linarith
  then show ?thesis
  proof cases
    case 1
    then show ?thesis
      by (simp add: padStart0_def digitChar_0 digitsOf_1 replicate_small)
  next
    case 2
    then show ?thesis
      by (simp add: padStart0_def digitChar_0 digitsOf_2 replicate_small)
  next
    case 3
    then show ?thesis
      by (simp add: padStart0_def digitChar_0 digitsOf_3 replicate_small)
  next
    case 4
    then show ?thesis using assms
      by (simp add: padStart0_def digitsOf_4)
  qed
qed


lemma isoDateYMD_no_T:
  assumes "calendarDate d"
  shows "0x54 \<notin> set (isoDateYMD d)"
proof -
  have "nat (utc_year d) div 1000 < 10" "utc_month d div 10 < 10" "utc_day d div 10 < 10"
    using assms by (auto simp: calendarDate_def)
  then show ?thesis
    using digitChar_not_T by (auto simp: isoDateYMD_def)
qed

lemma toISOString_date:
  assumes "calendarDate d"
  shows "\<exists>r. toISOString d = isoDateYMD d @ 0x54 # r"
proof -
  have y: "nat (utc_year d) < 10000" and m: "utc_month d < 100" and dd: "utc_day d < 100"
    using assms by (auto simp: calendarDate_def)
  have "0 \<le> utc_year d \<and> utc_year d \<le> 9999" using assms by (simp add: calendarDate_def)
  then show ?thesis
    by (simp add: toISOString_def isoDateYMD_def pad4 [OF y] pad2 [OF m] pad2 [OF dd])
qed

lemma firstPart_toISOString:
  assumes "calendarDate d"
  shows "firstPart (split 0x54 (toISOString d)) = isoDateYMD d"
proof -
  obtain r where "toISOString d = isoDateYMD d @ 0x54 # r"
    using toISOString_date [OF assms] by blast
  then show ?thesis
    using isoDateYMD_no_T [OF assms] by (simp add: split_append_sep firstPart_def)
qed

lemma digitChar_isDigit: "d < 10 \<Longrightarrow> isDigit (digitChar d)"
proof -
  assume "d < 10"
  then have "d \<in> {0, 1, 2, 3, 4, 5, 6, 7, 8, 9}" by auto
  then show ?thesis by (auto simp: digitChar_def isDigit_def)
qed

lemma isYMD_isoDateYMD:
  assumes "calendarDate d"
  shows "isYMD (isoDateYMD d)"
proof -
  have "nat (utc_year d) div 1000 < 10" "utc_month d div 10 < 10" "utc_day d div 10 < 10"
    using assms by (auto simp: calendarDate_def)
  then show ?thesis
    by (simp add: isYMD_def isoDateYMD_def digitChar_isDigit)
qed

text \<open>
  Claim C8, as amended. For every session id and every current time whose UTC year
  lies between 0 and 9999, a successful Word or PDF export is saved under the name
  \<^verbatim>\<open>id-dss-session-{id}-{YYYY-MM-DD}.{ext}\<close>: the id as JavaScript prints the
  number (its decimal digits for every safe integer), the UTC date of the current
  time in the ten-character form \<^verbatim>\<open>YYYY-MM-DD\<close>, and the extension \<^verbatim>\<open>docx\<close> or
  \<^verbatim>\<open>pdf\<close>.
\<close>

theorem export_download_name:
  assumes "calendarDate now"
  shows "downloadSessionExportDocx beyond sid now (Inr body) =
           Inr \<lparr>blob_type =
                  js ''application/vnd.openxmlformats-officedocument.wordprocessingml.document'',
                download = exportFileName beyond sid now (js ''docx'')\<rparr>
     \<and> downloadSessionExportPdf beyond sid now (Inr body') =
           Inr \<lparr>blob_type = js ''application/pdf'',
                download = exportFileName beyond sid now (js ''pdf'')\<rparr>
     \<and> isYMD (isoDateYMD now)
     \<and> numberToString beyond sid =
         (if safeInteger sid
          then (if sid < 0 then 0x2D # digitsOf (nat (- sid)) else digitsOf (nat sid))
          else beyond sid)"
  by (simp add: downloadSessionExportDocx_def downloadSessionExportPdf_def exportFileName_def
      firstPart_toISOString [OF assms] isYMD_isoDateYMD [OF assms] numberToString_def js_def)

text \<open>Session 42 exported on 2 November 2026.\<close>

theorem export_download_name_witness:
  "calendarDate \<lparr>utc_year = 2026, utc_month = 11, utc_day = 2, utc_hours = 9,
      utc_minutes = 5, utc_seconds = 0, utc_milliseconds = 7\<rparr>
   \<and> downloadSessionExportDocx (\<lambda>n. []) 42
       \<lparr>utc_year = 2026, utc_month = 11, utc_day = 2, utc_hours = 9,
        utc_minutes = 5, utc_seconds = 0, utc_milliseconds = 7\<rparr> (Inr ())
     = Inr \<lparr>blob_type =
              js ''application/vnd.openxmlformats-officedocument.wordprocessingml.document'',
            download = js ''id-dss-session-42-2026-11-02.docx''\<rparr>
   \<and> downloadSessionExportPdf (\<lambda>n. []) 42
       \<lparr>utc_year = 2026, utc_month = 11, utc_day = 2, utc_hours = 9,
        utc_minutes = 5, utc_seconds = 0, utc_milliseconds = 7\<rparr> (Inr ())
     = Inr \<lparr>blob_type = js ''application/pdf'',
            download = js ''id-dss-session-42-2026-11-02.pdf''\<rparr>"
proof -
  define now where "now = \<lparr>utc_year = 2026, utc_month = 11, utc_day = 2, utc_hours = 9,
      utc_minutes = 5, utc_seconds = 0, utc_milliseconds = 7\<rparr>"
  have c: "calendarDate now" by (simp add: now_def calendarDate_def)
  have n: "exportFileName (\<lambda>n. []) 42 now (js ''docx'') = js ''id-dss-session-42-2026-11-02.docx''"
      "exportFileName (\<lambda>n. []) 42 now (js ''pdf'') = js ''id-dss-session-42-2026-11-02.pdf''"
    unfolding now_def
    by (simp_all add: exportFileName_def numberToString_def safeInteger_def isoDateYMD_def
        digitsOf.simps digitChar_def js_def)
  show ?thesis
    using export_download_name [OF c, of "\<lambda>n. []" 42 "()" "()"] c n unfolding now_def by simp
qed

text \<open>
  Claim C8 as stated fails for a date outside the four-digit years: on 1 January of the
  year 10000 the date part of the name is \<^verbatim>\<open>+010000-01-01\<close>, which is not of the
  form \<^verbatim>\<open>YYYY-MM-DD\<close>.
\<close>

theorem export_download_name_year_10000:
  "downloadSessionExportDocx (\<lambda>n. []) 42
       \<lparr>utc_year = 10000, utc_month = 1, utc_day = 1, utc_hours = 0,
        utc_minutes = 0, utc_seconds = 0, utc_milliseconds = 0\<rparr> (Inr ())
     = Inr \<lparr>blob_type =
              js ''application/vnd.openxmlformats-officedocument.wordprocessingml.document'',
            download = js ''id-dss-session-42-+010000-01-01.docx''\<rparr>
   \<and> firstPart (split 0x54 (toISOString
       \<lparr>utc_year = 10000, utc_month = 1, utc_day = 1, utc_hours = 0,
        utc_minutes = 0, utc_seconds = 0, utc_milliseconds = 0\<rparr>)) = js ''+010000-01-01''
   \<and> \<not> isYMD (js ''+010000-01-01'')"
  by (simp add: downloadSessionExportDocx_def numberToString_def safeInteger_def
      toISOString_def padStart0_def digitsOf.simps digitChar_def firstPart_def js_def
      replicate_small isYMD_def isDigit_def)

end
